theory Spec2Isabelle
  imports Main
begin

section \<open>Observables as traces\<close>

text \<open>
  The library is written against RxJS 6.  An observable is modelled by the finite trace of
  what one subscription to it delivers: values (\<open>Next\<close>), the two terminal notifications
  (\<open>Error\<close>, \<open>Complete\<close>) and \<open>Wait t\<close>, which stands for control going back to the event
  loop for \<open>t\<close> milliseconds.  The events between two \<open>Wait\<close>s are delivered synchronously,
  in one scheduling tick.  A trace that ends without a terminal notification is an
  observable that stays silent from there on.  Whatever follows a terminal notification
  is never delivered; every operator below stops reading there.
\<close>

datatype ('v, 'e) event = Next 'v | Error 'e | Complete | Wait nat

type_synonym ('v, 'e) obs = "('v, 'e) event list"

text \<open>\<^verbatim>\<open>of(v)\<close>, \<^verbatim>\<open>EMPTY\<close> and \<^verbatim>\<open>startWith(v)\<close>.\<close>

definition of_obs :: "'v \<Rightarrow> ('v, 'e) obs" where
  "of_obs v = [Next v, Complete]"

definition EMPTY :: "('v, 'e) obs" where
  "EMPTY = [Complete]"

definition startWith :: "'v \<Rightarrow> ('v, 'e) obs \<Rightarrow> ('v, 'e) obs" where
  "startWith v xs = Next v # xs"

text \<open>
  \<^verbatim>\<open>timer(d).pipe(switchMap(() => inner))\<close>: the timer delivers its single value after
  \<open>d\<close> milliseconds and completes, and \<open>switchMap\<close> then mirrors the one inner observable.
\<close>

definition timer_switchMap :: "nat \<Rightarrow> ('v, 'e) obs \<Rightarrow> ('v, 'e) obs" where
  "timer_switchMap d inner = Wait d # inner"

text \<open>\<^verbatim>\<open>map(f)\<close> and \<^verbatim>\<open>catchError(h)\<close>.\<close>

fun map_obs :: "('a \<Rightarrow> 'b) \<Rightarrow> ('a, 'e) obs \<Rightarrow> ('b, 'e) obs" where
  "map_obs f [] = []"
| "map_obs f (Next v # xs) = Next (f v) # map_obs f xs"
| "map_obs f (Wait t # xs) = Wait t # map_obs f xs"
| "map_obs f (Complete # xs) = [Complete]"
| "map_obs f (Error e # xs) = [Error e]"

fun catchError :: "('e \<Rightarrow> ('v, 'e) obs) \<Rightarrow> ('v, 'e) obs \<Rightarrow> ('v, 'e) obs" where
  "catchError h [] = []"
| "catchError h (Next v # xs) = Next v # catchError h xs"
| "catchError h (Wait t # xs) = Wait t # catchError h xs"
| "catchError h (Complete # xs) = [Complete]"
| "catchError h (Error e # xs) = h e"

text \<open>
  Two observables subscribed at the same moment, the first one first: the merged trace
  interleaves them by time, ends with an error as soon as either fails, and completes
  when both have completed.  \<open>never_complete\<close> is the rest of one side when the other
  side stays silent forever.
\<close>

fun never_complete :: "('v, 'e) obs \<Rightarrow> ('v, 'e) obs" where
  "never_complete [] = []"
| "never_complete (Complete # xs) = []"
| "never_complete (Error e # xs) = [Error e]"
| "never_complete (x # xs) = x # never_complete xs"

fun merge :: "('v, 'e) obs \<Rightarrow> ('v, 'e) obs \<Rightarrow> ('v, 'e) obs" where
  "merge (Complete # xs) ys = ys"
| "merge xs (Complete # ys) = xs"
| "merge (Error e # xs) ys = [Error e]"
| "merge (Next v # xs) ys = Next v # merge xs ys"
| "merge xs (Error e # ys) = [Error e]"
| "merge xs (Next v # ys) = Next v # merge xs ys"
| "merge [] ys = never_complete ys"
| "merge xs [] = never_complete xs"
| "merge (Wait s # xs) (Wait t # ys) =
     (if s \<le> t then Wait s # merge xs (Wait (t - s) # ys)
      else Wait t # merge (Wait (s - t) # xs) ys)"

text \<open>
  \<^verbatim>\<open>expand(project)\<close>: every value is passed on and then given to \<open>project\<close>; the
  observable it returns is subscribed at once, its values are expanded in the same way,
  and it runs concurrently with the rest of the source.  The recursion has no bound in
  the source (a retry predicate may hold forever), so the model takes fuel for the depth
  of the nesting and returns \<open>None\<close> when the fuel does not reach the end of the chain.
\<close>

fun expand :: "nat \<Rightarrow> ('v \<Rightarrow> ('v, 'e) obs) \<Rightarrow> ('v, 'e) obs \<Rightarrow> ('v, 'e) obs option" where
  "expand fuel project [] = Some []"
| "expand fuel project (Wait t # xs) = map_option ((#) (Wait t)) (expand fuel project xs)"
| "expand fuel project (Complete # xs) = Some [Complete]"
| "expand fuel project (Error e # xs) = Some [Error e]"
| "expand 0 project (Next v # xs) = None"
| "expand (Suc fuel) project (Next v # xs) =
     (case expand fuel project (project v) of
        None \<Rightarrow> None
      | Some inner \<Rightarrow>
          (case expand (Suc fuel) project xs of
             None \<Rightarrow> None
           | Some rest \<Rightarrow> Some (Next v # merge inner rest)))"

text \<open>
  \<^verbatim>\<open>debounce(durationSelector)\<close> of RxJS 6, for the two kinds of duration the source
  uses: \<^verbatim>\<open>timer(d)\<close> and \<^verbatim>\<open>EMPTY\<close>.  A value replaces the pending value and cancels
  its timer; a duration that completes at once (\<^verbatim>\<open>EMPTY\<close>) emits the value at once; a
  pending value is emitted when its timer fires or when the source completes, and is
  dropped when the source fails.
\<close>

datatype duration = Timer nat | Empty

fun debounce_from ::
  "('v \<Rightarrow> duration) \<Rightarrow> ('v \<times> nat) option \<Rightarrow> ('v, 'e) obs \<Rightarrow> ('v, 'e) obs" where
  "debounce_from sel None [] = []"
| "debounce_from sel (Some (p, d)) [] = [Wait d, Next p]"
| "debounce_from sel pending (Next v # xs) =
     (case sel v of
        Empty \<Rightarrow> Next v # debounce_from sel None xs
      | Timer d \<Rightarrow> debounce_from sel (Some (v, d)) xs)"
| "debounce_from sel None (Wait t # xs) = Wait t # debounce_from sel None xs"
| "debounce_from sel (Some (p, d)) (Wait t # xs) =
     (if d \<le> t then Wait d # Next p # Wait (t - d) # debounce_from sel None xs
      else Wait t # debounce_from sel (Some (p, d - t)) xs)"
| "debounce_from sel None (Complete # xs) = [Complete]"
| "debounce_from sel (Some (p, d)) (Complete # xs) = [Next p, Complete]"
| "debounce_from sel pending (Error e # xs) = [Error e]"

definition debounce :: "('v \<Rightarrow> duration) \<Rightarrow> ('v, 'e) obs \<Rightarrow> ('v, 'e) obs" where
  "debounce sel xs = debounce_from sel None xs"


section \<open>Results and configuration\<close>

text \<open>
  \<^verbatim>\<open>QueryOutput\<close> as \<^verbatim>\<open>query.ts\<close> builds it: \<open>state\<close> is a string, the other fields are
  optional (\<open>None\<close> is a field that the object does not have).
\<close>

record ('a, 'e) QueryOutput =
  state :: string
  data :: "'a option"
  error :: "'e option"
  retries :: "nat option"

text \<open>
  A property of a configuration object is absent, present with the value \<^verbatim>\<open>undefined\<close>,
  or present with a value.  \<^verbatim>\<open>QueryConfig\<close> allows a number or a function for \<^verbatim>\<open>retries\<close>
  and \<^verbatim>\<open>retryDelay\<close>, a number or an observable for \<^verbatim>\<open>refetchInterval\<close>.  Numbers are
  integers here; delays and times are non-negative milliseconds.  The configuration's
  \<^verbatim>\<open>retries\<close> is named \<open>config_retries\<close>, apart from the field of the result.
\<close>

datatype 'a field = Absent | Undefined | Val 'a

datatype 'e retries_value = RetriesNumber int | RetriesFunction "nat \<Rightarrow> 'e option \<Rightarrow> bool"

datatype delay_value = DelayNumber nat | DelayFunction "nat \<Rightarrow> nat"

datatype interval_value = IntervalNumber nat | IntervalObservable "(unit, unit) obs"

record 'e QueryConfig =
  config_retries :: "'e retries_value field"
  retryDelay :: "delay_value field"
  refetchOnWindowFocus :: "bool field"
  refetchInterval :: "interval_value field"
  staleTime :: "nat field"
  cacheTime :: "nat field"

definition DEFAULT_QUERY_CONFIG :: "'e QueryConfig" where
  "DEFAULT_QUERY_CONFIG =
     \<lparr>config_retries = Val (RetriesNumber 3),
      retryDelay = Val (DelayFunction (\<lambda>n. (n + 1) * 1000)),
      refetchOnWindowFocus = Val False,
      refetchInterval = Undefined,
      staleTime = Val 0,
      cacheTime = Val 300000\<rparr>"

text \<open>
  \<^verbatim>\<open>createRetryDelay\<close> and \<^verbatim>\<open>createRetryCondition\<close>.  \<^verbatim>\<open>queryConfig.retries || 0\<close> is the
  number itself (\<open>0\<close> stays \<open>0\<close>); a property that is not a number is a function, which is
  truthy, or \<^verbatim>\<open>undefined\<close>, which gives the constant fallback.
\<close>

definition createRetryDelay :: "'e QueryConfig \<Rightarrow> nat \<Rightarrow> nat" where
  "createRetryDelay queryConfig =
     (case retryDelay queryConfig of
        Val (DelayNumber d) \<Rightarrow> (\<lambda>n. d)
      | Val (DelayFunction f) \<Rightarrow> f
      | _ \<Rightarrow> (\<lambda>n. 0))"

definition createRetryCondition :: "'e QueryConfig \<Rightarrow> nat \<Rightarrow> 'e option \<Rightarrow> bool" where
  "createRetryCondition queryConfig =
     (case config_retries queryConfig of
        Val (RetriesNumber r) \<Rightarrow> (\<lambda>n e. int n < r)
      | Val (RetriesFunction p) \<Rightarrow> p
      | _ \<Rightarrow> (\<lambda>n e. False))"

section \<open>The retrying invoker\<close>

text \<open>
  The user's fetch function is \<open>query\<close>: \<open>query params n\<close> is the observable that the
  call \<^verbatim>\<open>query(params)\<close> of attempt \<open>n\<close> returns (the function does I/O, so its calls
  need not agree).  \<^verbatim>\<open>result.retries || 0\<close> is \<open>or0\<close>.  \<open>success_result n\<close> and
  \<open>error_result n\<close> are the two object literals of \<^verbatim>\<open>invoke(n)\<close>: \<^verbatim>\<open>retries\<close> is left out
  of a success when it is \<open>0\<close>.
\<close>

definition or0 :: "nat option \<Rightarrow> nat" where
  "or0 r = (case r of None \<Rightarrow> 0 | Some n \<Rightarrow> n)"

definition success_result :: "nat \<Rightarrow> 'a \<Rightarrow> ('a, 'e) QueryOutput" where
  "success_result n d =
     \<lparr>state = ''success'', data = Some d, error = None,
      retries = (if n \<noteq> 0 then Some n else None)\<rparr>"

definition error_result :: "nat \<Rightarrow> 'e \<Rightarrow> ('a, 'e) QueryOutput" where
  "error_result n e = \<lparr>state = ''error'', data = None, error = Some e, retries = Some n\<rparr>"

definition invoke ::
  "('p \<Rightarrow> nat \<Rightarrow> ('a, 'e) obs) \<Rightarrow> 'p \<Rightarrow> nat \<Rightarrow> (('a, 'e) QueryOutput, 'e) obs" where
  "invoke query params n =
     catchError (\<lambda>e. of_obs (error_result n e))
       (map_obs (\<lambda>d. success_result n d) (query params n))"

text \<open>The function given to \<^verbatim>\<open>expand\<close>, and the duration selector given to \<^verbatim>\<open>debounce\<close>.\<close>

definition retry_project ::
  "'e QueryConfig \<Rightarrow> ('p \<Rightarrow> nat \<Rightarrow> ('a, 'e) obs) \<Rightarrow> string \<Rightarrow> 'p \<Rightarrow>
   ('a, 'e) QueryOutput \<Rightarrow> (('a, 'e) QueryOutput, 'e) obs" where
  "retry_project queryConfig query loadingState params result =
     (if state result = ''error'' \<and>
         createRetryCondition queryConfig (or0 (retries result)) (error result)
      then startWith (result\<lparr>state := loadingState\<rparr>)
             (timer_switchMap (createRetryDelay queryConfig (or0 (retries result)))
                (invoke query params (or0 (retries result) + 1)))
      else EMPTY)"

definition error_duration :: "('a, 'e) QueryOutput \<Rightarrow> duration" where
  "error_duration result = (if state result = ''error'' then Timer 0 else Empty)"

text \<open>
  \<^verbatim>\<open>invokeQuery(loadingState, params)\<close>, the observable \<^verbatim>\<open>callResult$\<close> of one attempt
  chain.  \<open>None\<close>: the chain is longer than the fuel.
\<close>

definition invokeQuery ::
  "'e QueryConfig \<Rightarrow> ('p \<Rightarrow> nat \<Rightarrow> ('a, 'e) obs) \<Rightarrow> nat \<Rightarrow> string \<Rightarrow> 'p \<Rightarrow>
   (('a, 'e) QueryOutput, 'e) obs option" where
  "invokeQuery queryConfig query fuel loadingState params =
     map_option (debounce error_duration)
       (expand fuel (retry_project queryConfig query loadingState params)
          (invoke query params 0))"






text \<open>
  The trace that the pipeline of \<^verbatim>\<open>invokeQuery\<close> comes to when \<open>loadingState\<close> is not
  \<^verbatim>\<open>'error'\<close>, written as one recursion over the observable of attempt \<open>n\<close>; \<open>c\<close> is the
  retry condition, \<open>dl\<close> the retry delay and \<open>q\<close> the fetch function at the given
  parameters.  It is proved equal to \<open>invokeQuery\<close> below and carries the inductions.
\<close>

fun chain_trace ::
  "(nat \<Rightarrow> 'e option \<Rightarrow> bool) \<Rightarrow> (nat \<Rightarrow> nat) \<Rightarrow> string \<Rightarrow> (nat \<Rightarrow> ('a, 'e) obs) \<Rightarrow>
   nat \<Rightarrow> nat \<Rightarrow> ('a, 'e) obs \<Rightarrow> (('a, 'e) QueryOutput, 'e) obs option" where
  "chain_trace c dl ls q fuel n [] = Some []"
| "chain_trace c dl ls q fuel n (Wait t # xs) =
     map_option ((#) (Wait t)) (chain_trace c dl ls q fuel n xs)"
| "chain_trace c dl ls q fuel n (Complete # xs) = Some [Complete]"
| "chain_trace c dl ls q 0 n (Next d # xs) = None"
| "chain_trace c dl ls q (Suc fuel) n (Next d # xs) =
     map_option ((#) (Next (success_result n d))) (chain_trace c dl ls q (Suc fuel) n xs)"
| "chain_trace c dl ls q 0 n (Error e # xs) = None"
| "chain_trace c dl ls q (Suc 0) n (Error e # xs) =
     (if c n (Some e) then None else Some [Next (error_result n e), Complete])"
| "chain_trace c dl ls q (Suc (Suc fuel)) n (Error e # xs) =
     (if c n (Some e)
      then map_option (\<lambda>r. Next ((error_result n e)\<lparr>state := ls\<rparr>) # Wait (dl n) # r)
             (chain_trace c dl ls q (Suc fuel) (Suc n) (q (Suc n)))
      else Some [Next (error_result n e), Complete])"

text \<open>The values of a trace, in order, and the values of its first scheduling tick.\<close>

fun values_of :: "('v, 'e) obs \<Rightarrow> 'v list" where
  "values_of [] = []"
| "values_of (Next v # xs) = v # values_of xs"
| "values_of (Wait t # xs) = values_of xs"
| "values_of (Complete # xs) = []"
| "values_of (Error e # xs) = []"

fun sync_values :: "('v, 'e) obs \<Rightarrow> 'v list" where
  "sync_values (Next v # xs) = v # sync_values xs"
| "sync_values xs = []"

text \<open>
  A result whose attempt failed and is retried: the condition under which the function
  given to \<^verbatim>\<open>expand\<close> starts the next attempt.
\<close>

definition retried :: "'e QueryConfig \<Rightarrow> ('a, 'e) QueryOutput \<Rightarrow> bool" where
  "retried queryConfig result \<longleftrightarrow>
     state result = ''error'' \<and>
     createRetryCondition queryConfig (or0 (retries result)) (error result)"

text \<open>
  Two properties of the trace that \<^verbatim>\<open>expand\<close> delivers to \<^verbatim>\<open>debounce\<close>.
  \<open>relabelled_after\<close>: every retried failure is followed, in the same tick, by its copy
  under the loading state and then by the backoff wait.  \<open>keep\<close>: the events that are
  not retried failures.
\<close>

fun relabelled_after ::
  "'e QueryConfig \<Rightarrow> string \<Rightarrow> (('a, 'e) QueryOutput, 'e) obs \<Rightarrow> bool" where
  "relabelled_after cfg ls [] = True"
| "relabelled_after cfg ls (Next v # xs) =
     ((retried cfg v \<longrightarrow>
        (case xs of
           Next w # Wait d # ys \<Rightarrow>
             w = v\<lparr>state := ls\<rparr> \<and> d = createRetryDelay cfg (or0 (retries v))
         | _ \<Rightarrow> False)) \<and>
      relabelled_after cfg ls xs)"
| "relabelled_after cfg ls (x # xs) = relabelled_after cfg ls xs"

definition keep :: "'e QueryConfig \<Rightarrow> (('a, 'e) QueryOutput, 'e) event \<Rightarrow> bool" where
  "keep cfg x = (case x of Next v \<Rightarrow> \<not> retried cfg v | _ \<Rightarrow> True)"

section \<open>Parameters and cache keys\<close>

text \<open>
  The values a parameter can take: JSON data and \<^verbatim>\<open>undefined\<close>.  Numbers are integers.
  An object lists its properties in the order in which JavaScript enumerates them.
\<close>

datatype jv = JUndefined | JNull | JBool bool | JNumber int | JString string
  | JArray "jv list" | JObject "(string \<times> jv) list"

text \<open>The decimal numeral of a number, as string concatenation and \<^verbatim>\<open>JSON.stringify\<close> print it.\<close>

fun digits :: "nat \<Rightarrow> string" where
  "digits n =
     (if n < 10 then [char_of (48 + n)] else digits (n div 10) @ [char_of (48 + n mod 10)])"

definition number_to_string :: "int \<Rightarrow> string" where
  "number_to_string i = (if i < 0 then CHR ''-'' # digits (nat (- i)) else digits (nat i))"

text \<open>
  \<^verbatim>\<open>JSON.stringify\<close>.  A string is quoted with the escapes of ECMAScript's QuoteJSONString.
  \<^verbatim>\<open>undefined\<close> has no serialization (\<open>None\<close>), prints as \<^verbatim>\<open>null\<close> inside an array, and a
  property whose value is \<^verbatim>\<open>undefined\<close> is left out of its object.
\<close>

definition hex_digit :: "nat \<Rightarrow> char" where
  "hex_digit n = (if n < 10 then char_of (48 + n) else char_of (87 + n))"

definition escape_char :: "char \<Rightarrow> string" where
  "escape_char c =
     (if c = CHR 0x22 then [CHR 0x5C, CHR 0x22]
      else if c = CHR 0x5C then [CHR 0x5C, CHR 0x5C]
      else if c = CHR 0x08 then [CHR 0x5C, CHR ''b'']
      else if c = CHR 0x09 then [CHR 0x5C, CHR ''t'']
      else if c = CHR 0x0A then [CHR 0x5C, CHR ''n'']
      else if c = CHR 0x0C then [CHR 0x5C, CHR ''f'']
      else if c = CHR 0x0D then [CHR 0x5C, CHR ''r'']
      else if (of_char c :: nat) < 32
        then [CHR 0x5C, CHR ''u'', CHR ''0'', CHR ''0'',
              hex_digit (of_char c div 16), hex_digit (of_char c mod 16)]
      else [c])"

definition quote :: "string \<Rightarrow> string" where
  "quote s = CHR 0x22 # concat (map escape_char s) @ [CHR 0x22]"

fun join :: "string list \<Rightarrow> string" where
  "join [] = []"
| "join [s] = s"
| "join (s # t # ss) = s @ CHR '','' # join (t # ss)"

fun JSON_stringify :: "jv \<Rightarrow> string option" where
  "JSON_stringify JUndefined = None"
| "JSON_stringify JNull = Some ''null''"
| "JSON_stringify (JBool b) = Some (if b then ''true'' else ''false'')"
| "JSON_stringify (JNumber n) = Some (number_to_string n)"
| "JSON_stringify (JString s) = Some (quote s)"
| "JSON_stringify (JArray xs) =
     Some (''['' @
       join (map (\<lambda>x. case JSON_stringify x of None \<Rightarrow> ''null'' | Some s \<Rightarrow> s) xs) @ '']'')"
| "JSON_stringify (JObject kvs) =
     Some (''{'' @
       join (concat (map (\<lambda>(k, v). case JSON_stringify v of None \<Rightarrow> []
                                  | Some s \<Rightarrow> [quote k @ '':'' @ s]) kvs)) @ ''}'')"

text \<open>
  Deep equality as the specification speaks of it: two values are equal when they have
  the same shape and the same leaves, two objects when they have the same properties
  with deeply equal values, in whatever order the properties were written.
\<close>

fun deep_equal :: "jv \<Rightarrow> jv \<Rightarrow> bool" where
  "deep_equal (JArray xs) (JArray ys) = list_all2 deep_equal xs ys"
| "deep_equal (JObject a) (JObject b) =
     (set (map fst a) = set (map fst b) \<and>
      list_all (\<lambda>(k, v). case map_of b k of None \<Rightarrow> False | Some w \<Rightarrow> deep_equal v w) a)"
| "deep_equal x y = (x = y)"

text \<open>
  \<^verbatim>\<open>queryKeyAndParamsToCacheKey\<close>.  A value that is neither a string nor a number goes
  through \<^verbatim>\<open>JSON.stringify\<close>; string concatenation prints a missing serialization as
  \<^verbatim>\<open>undefined\<close>.
\<close>

definition queryKeyAndParamsToCacheKey :: "string \<Rightarrow> jv \<Rightarrow> string" where
  "queryKeyAndParamsToCacheKey key' params' =
     (if params' \<noteq> JUndefined \<and> params' \<noteq> JNull
      then key' @ ''-'' @
        (case params' of
           JString s \<Rightarrow> s
         | JNumber n \<Rightarrow> number_to_string n
         | _ \<Rightarrow> (case JSON_stringify params' of None \<Rightarrow> ''undefined'' | Some s \<Rightarrow> s))
      else key')"

section \<open>The parameter trigger\<close>

text \<open>
  A \<^verbatim>\<open>Revalidator\<close>.  Its \<^verbatim>\<open>query\<close> property is the invoker of the call in every event
  that \<^verbatim>\<open>query.ts\<close> builds and is left out.  \<^verbatim>\<open>params\<close> holds the parameter value, or,
  in the event that \<^verbatim>\<open>finalize\<close> builds, the revalidator the callback was given.
\<close>

datatype 'e Revalidator =
  Revalidator (key: string) (trigger: string) (params: "'e params_value")
    (config: "'e QueryConfig")
and 'e params_value = ParamsValue jv | ParamsRevalidator "'e Revalidator"

text \<open>
  \<^verbatim>\<open>distinctUntilChanged(compare)\<close>, \<^verbatim>\<open>pairwise()\<close>, \<^verbatim>\<open>concatMap\<close> with a function that
  returns an array, and \<^verbatim>\<open>take(1)\<close>.
\<close>

fun distinctUntilChanged_from ::
  "('v \<Rightarrow> 'v \<Rightarrow> bool) \<Rightarrow> 'v option \<Rightarrow> ('v, 'e) obs \<Rightarrow> ('v, 'e) obs" where
  "distinctUntilChanged_from compare previous [] = []"
| "distinctUntilChanged_from compare previous (Wait t # xs) =
     Wait t # distinctUntilChanged_from compare previous xs"
| "distinctUntilChanged_from compare previous (Complete # xs) = [Complete]"
| "distinctUntilChanged_from compare previous (Error e # xs) = [Error e]"
| "distinctUntilChanged_from compare None (Next v # xs) =
     Next v # distinctUntilChanged_from compare (Some v) xs"
| "distinctUntilChanged_from compare (Some a) (Next b # xs) =
     (if compare a b then distinctUntilChanged_from compare (Some a) xs
      else Next b # distinctUntilChanged_from compare (Some b) xs)"

definition distinctUntilChanged :: "('v \<Rightarrow> 'v \<Rightarrow> bool) \<Rightarrow> ('v, 'e) obs \<Rightarrow> ('v, 'e) obs" where
  "distinctUntilChanged compare xs = distinctUntilChanged_from compare None xs"

fun pairwise_from :: "'v option \<Rightarrow> ('v, 'e) obs \<Rightarrow> ('v \<times> 'v, 'e) obs" where
  "pairwise_from prev [] = []"
| "pairwise_from prev (Wait t # xs) = Wait t # pairwise_from prev xs"
| "pairwise_from prev (Complete # xs) = [Complete]"
| "pairwise_from prev (Error e # xs) = [Error e]"
| "pairwise_from None (Next v # xs) = pairwise_from (Some v) xs"
| "pairwise_from (Some a) (Next b # xs) = Next (a, b) # pairwise_from (Some b) xs"

definition pairwise :: "('v, 'e) obs \<Rightarrow> ('v \<times> 'v, 'e) obs" where
  "pairwise xs = pairwise_from None xs"

fun concatMap :: "('v \<Rightarrow> 'w list) \<Rightarrow> ('v, 'e) obs \<Rightarrow> ('w, 'e) obs" where
  "concatMap project [] = []"
| "concatMap project (Wait t # xs) = Wait t # concatMap project xs"
| "concatMap project (Complete # xs) = [Complete]"
| "concatMap project (Error e # xs) = [Error e]"
| "concatMap project (Next v # xs) = map Next (project v) @ concatMap project xs"

fun take1 :: "('v, 'e) obs \<Rightarrow> ('v, 'e) obs" where
  "take1 [] = []"
| "take1 (Wait t # xs) = Wait t # take1 xs"
| "take1 (Complete # xs) = [Complete]"
| "take1 (Error e # xs) = [Error e]"
| "take1 (Next v # xs) = [Next v, Complete]"

text \<open>
  \<^verbatim>\<open>paramsTrigger\<close>.  \<open>queryParam\<close> is a cold observable: every subscription to it is
  delivered the same trace.
\<close>

definition paramsTrigger ::
  "'e QueryConfig \<Rightarrow> (jv, 'x) obs \<Rightarrow> string \<Rightarrow> ('e Revalidator, 'x) obs" where
  "paramsTrigger queryConfig queryParam key' =
     concatMap
       (\<lambda>(previous, params').
          (if previous \<noteq> JUndefined
           then [Revalidator (queryKeyAndParamsToCacheKey key' previous) ''query-unsubscribe''
                   (ParamsValue previous) queryConfig]
           else []) @
          [Revalidator (queryKeyAndParamsToCacheKey key' params') ''query-subscribe''
             (ParamsValue params') queryConfig])
       (pairwise
          (distinctUntilChanged (\<lambda>a b. JSON_stringify a = JSON_stringify b)
             (startWith JUndefined queryParam)))"

text \<open>
  What the trigger does, value by value: \<open>previous\<close> is the value that was let through last
  (\<^verbatim>\<open>undefined\<close> at the start).
\<close>

fun trigger_events ::
  "'e QueryConfig \<Rightarrow> string \<Rightarrow> jv \<Rightarrow> (jv, 'x) obs \<Rightarrow> ('e Revalidator, 'x) obs" where
  "trigger_events queryConfig key' previous [] = []"
| "trigger_events queryConfig key' previous (Wait t # xs) =
     Wait t # trigger_events queryConfig key' previous xs"
| "trigger_events queryConfig key' previous (Complete # xs) = [Complete]"
| "trigger_events queryConfig key' previous (Error e # xs) = [Error e]"
| "trigger_events queryConfig key' previous (Next p # xs) =
     (if JSON_stringify previous = JSON_stringify p then trigger_events queryConfig key' previous xs
      else (if previous \<noteq> JUndefined
            then [Next (Revalidator (queryKeyAndParamsToCacheKey key' previous)
                          ''query-unsubscribe'' (ParamsValue previous) queryConfig)]
            else []) @
           Next (Revalidator (queryKeyAndParamsToCacheKey key' p) ''query-subscribe''
                   (ParamsValue p) queryConfig) #
           trigger_events queryConfig key' p xs)"


section \<open>The stream that \<^verbatim>\<open>query\<close> returns\<close>

text \<open>
  \<^verbatim>\<open>cache.pipe(withLatestFrom(params$), map(([c, k]) => c[k.key]), filter((v) => !!v),
  map((v) => v.result), distinctUntilChanged((a, b) => a === b), ...)\<close>.  The cache is
  kept by \<^verbatim>\<open>cache.ts\<close>; here a snapshot of it maps a cache key to the result of its entry,
  and the input of the pipeline is the sequence in which cache snapshots and the events
  of \<^verbatim>\<open>params$\<close> arrive.
\<close>

datatype ('c, 'k) arrival = FromCache 'c | FromParams 'k

fun params_arrivals :: "('c, 'k) arrival list \<Rightarrow> 'k list" where
  "params_arrivals [] = []"
| "params_arrivals (FromParams k # xs) = k # params_arrivals xs"
| "params_arrivals (FromCache c # xs) = params_arrivals xs"

fun withLatestFrom_from :: "'k option \<Rightarrow> ('c, 'k) arrival list \<Rightarrow> ('c \<times> 'k) list" where
  "withLatestFrom_from latest [] = []"
| "withLatestFrom_from latest (FromParams k # xs) = withLatestFrom_from (Some k) xs"
| "withLatestFrom_from None (FromCache c # xs) = withLatestFrom_from None xs"
| "withLatestFrom_from (Some k) (FromCache c # xs) = (c, k) # withLatestFrom_from (Some k) xs"

definition query_results :: "(string \<Rightarrow> 'r option, 'e Revalidator) arrival list \<Rightarrow> 'r list" where
  "query_results arrivals =
     remdups_adj (List.map_filter (\<lambda>(c, k). c (key k)) (withLatestFrom_from None arrivals))"






text \<open>
  The callback of \<^verbatim>\<open>finalize\<close> subscribes to \<^verbatim>\<open>params$\<close> anew, takes its first event and
  pushes a \<^verbatim>\<open>query-unsubscribe\<close> built from it; then it unsubscribes the triggers.  The
  pipeline with its \<^verbatim>\<open>share()\<close> is built inside \<^verbatim>\<open>defer\<close>, once for every listener, so
  every listener that detaches runs the callback.  The state counts the listeners and the
  open trigger subscriptions and records what has been pushed to \<^verbatim>\<open>revalidate\<close>;
  \<open>unsubscribe_query\<close> records the events that are pushed before control returns to the
  event loop.
\<close>

definition finalize_events ::
  "'e QueryConfig \<Rightarrow> (jv, 'x) obs \<Rightarrow> string \<Rightarrow> ('e Revalidator, 'x) obs" where
  "finalize_events queryConfig queryParam key' =
     map_obs (\<lambda>p. Revalidator (key p) ''query-unsubscribe'' (ParamsRevalidator p) queryConfig)
       (take1 (paramsTrigger queryConfig queryParam key'))"

record 'e query_state =
  listeners :: nat
  triggersSubscriptions :: nat
  revalidate :: "'e Revalidator list"

definition subscribe_query :: "'e query_state \<Rightarrow> 'e query_state" where
  "subscribe_query st =
     st\<lparr>listeners := listeners st + 1, triggersSubscriptions := triggersSubscriptions st + 1\<rparr>"

definition unsubscribe_query ::
  "'e QueryConfig \<Rightarrow> (jv, 'x) obs \<Rightarrow> string \<Rightarrow> 'e query_state \<Rightarrow> 'e query_state" where
  "unsubscribe_query queryConfig queryParam key' st =
     (if listeners st = 0 then st
      else st\<lparr>listeners := listeners st - 1,
              triggersSubscriptions := triggersSubscriptions st - 1,
              revalidate := revalidate st @
                sync_values (finalize_events queryConfig queryParam key')\<rparr>)"

section \<open>Reading the arguments\<close>

text \<open>
  \<^verbatim>\<open>parseInput\<close>.  An argument is a function, an observable, a configuration object or
  a parameter value; an argument that is not given reads as \<^verbatim>\<open>undefined\<close>.  The two
  overloads of \<^verbatim>\<open>query\<close> admit a function where the fetch function is read and a
  configuration or nothing where the configuration is read; for any other argument list
  the model gives \<open>None\<close>.  Spreading \<^verbatim>\<open>undefined\<close> adds nothing; spreading an object
  sets every property that the object has, whatever its value.
\<close>

datatype ('a, 'e, 'x) input =
  Function "jv \<Rightarrow> nat \<Rightarrow> ('a, 'e) obs" | ObservableInput "(jv, 'x) obs" | Value jv
  | Config "'e QueryConfig"

definition input_at :: "('a, 'e, 'x) input list \<Rightarrow> nat \<Rightarrow> ('a, 'e, 'x) input" where
  "input_at inputs i = (if i < length inputs then inputs ! i else Value JUndefined)"

definition spread_field :: "'a field \<Rightarrow> 'a field \<Rightarrow> 'a field" where
  "spread_field d i = (case i of Absent \<Rightarrow> d | _ \<Rightarrow> i)"

definition spread :: "'e QueryConfig \<Rightarrow> 'e QueryConfig option \<Rightarrow> 'e QueryConfig" where
  "spread defaults inputConfig =
     (case inputConfig of
        None \<Rightarrow> defaults
      | Some c \<Rightarrow>
          \<lparr>config_retries = spread_field (config_retries defaults) (config_retries c),
           retryDelay = spread_field (retryDelay defaults) (retryDelay c),
           refetchOnWindowFocus =
             spread_field (refetchOnWindowFocus defaults) (refetchOnWindowFocus c),
           refetchInterval = spread_field (refetchInterval defaults) (refetchInterval c),
           staleTime = spread_field (staleTime defaults) (staleTime c),
           cacheTime = spread_field (cacheTime defaults) (cacheTime c)\<rparr>)"

record ('a, 'e, 'x) parsed =
  query :: "jv \<Rightarrow> nat \<Rightarrow> ('a, 'e) obs"
  queryParam :: "(jv, 'x) obs"
  queryConfig :: "'e QueryConfig"

definition parseInput :: "('a, 'e, 'x) input list \<Rightarrow> ('a, 'e, 'x) parsed option" where
  "parseInput inputs =
     (let firstInput = input_at inputs 0;
          secondInput = input_at inputs 1;
          thirdInput = input_at inputs 2;
          hasParamInput = (case firstInput of Function f \<Rightarrow> False | _ \<Rightarrow> True);
          param = (if hasParamInput
                   then (case firstInput of
                           ObservableInput ob \<Rightarrow> Some ob
                         | Value v \<Rightarrow> Some (of_obs v)
                         | _ \<Rightarrow> None)
                   else Some (of_obs JNull));
          fetch = (case (if hasParamInput then secondInput else firstInput) of
                     Function f \<Rightarrow> Some f
                   | _ \<Rightarrow> None);
          inputConfig = (case (if hasParamInput then thirdInput else secondInput) of
                           Config c \<Rightarrow> Some (Some c)
                         | Value JUndefined \<Rightarrow> Some None
                         | _ \<Rightarrow> None)
      in case (param, fetch, inputConfig) of
           (Some ob, Some f, Some c) \<Rightarrow>
             Some \<lparr>query = f, queryParam = ob, queryConfig = spread DEFAULT_QUERY_CONFIG c\<rparr>
         | _ \<Rightarrow> None)"

section \<open>Concrete instances\<close>

text \<open>The configurations, fetch functions and parameters at which the theorems are instantiated.\<close>

definition witness_config :: "string QueryConfig" where
  "witness_config =
     \<lparr>config_retries = Val (RetriesNumber 2), retryDelay = Val (DelayFunction (\<lambda>n. 0)),
      refetchOnWindowFocus = Val False, refetchInterval = Undefined, staleTime = Val 0,
      cacheTime = Val 300000\<rparr>"

definition witness_fetch :: "jv \<Rightarrow> nat \<Rightarrow> (nat, string) obs" where
  "witness_fetch p n = (if n < 2 then [Error ''down''] else [Next 42, Complete])"

definition witness_input_config :: "string QueryConfig" where
  "witness_input_config =
     \<lparr>config_retries = Absent, retryDelay = Absent, refetchOnWindowFocus = Absent,
      refetchInterval = Absent, staleTime = Absent, cacheTime = Val 5000\<rparr>"

definition retries_undefined_config :: "string QueryConfig" where
  "retries_undefined_config =
     \<lparr>config_retries = Undefined, retryDelay = Absent, refetchOnWindowFocus = Absent,
      refetchInterval = Absent, staleTime = Absent, cacheTime = Absent\<rparr>"

definition failing_fetch :: "jv \<Rightarrow> nat \<Rightarrow> (nat, string) obs" where
  "failing_fetch p n = [Error ''down'']"


definition params_a1 :: jv where
  "params_a1 = JObject [(''a'', JNumber 1)]"

definition params_a2 :: jv where
  "params_a2 = JObject [(''a'', JNumber 2)]"

definition params_ab :: jv where
  "params_ab = JObject [(''a'', JNumber 1), (''b'', JNumber 2)]"

definition params_ba :: jv where
  "params_ba = JObject [(''b'', JNumber 2), (''a'', JNumber 1)]"

definition params_a_undefined :: jv where
  "params_a_undefined = JObject [(''a'', JUndefined)]"

definition params_empty :: jv where
  "params_empty = JObject []"


definition one_listener :: "string query_state" where
  "one_listener =
     subscribe_query \<lparr>listeners = 0, triggersSubscriptions = 0, revalidate = []\<rparr>"

definition full_cache :: "string \<Rightarrow> nat option" where
  "full_cache k = Some 7"






section \<open>Properties\<close>

lemma project_success [simp]:
  "retry_project cfg q ls p (success_result n d) = [Complete]"
  by (simp add: retry_project_def success_result_def EMPTY_def)

lemma project_loading [simp]:
  "ls \<noteq> ''error'' \<Longrightarrow> retry_project cfg q ls p (r\<lparr>state := ls\<rparr>) = [Complete]"
  by (simp add: retry_project_def EMPTY_def)

lemma project_error [simp]:
  "retry_project cfg q ls p (error_result n e) =
     (if createRetryCondition cfg n (Some e)
      then Next ((error_result n e)\<lparr>state := ls\<rparr>) # Wait (createRetryDelay cfg n) #
             invoke q p (Suc n)
      else [Complete])"
  by (simp add: retry_project_def error_result_def EMPTY_def startWith_def
      timer_switchMap_def or0_def)

lemma error_duration_simps [simp]:
  "error_duration (success_result n d) = Empty"
  "error_duration (error_result n e) = Timer 0"
  "ls \<noteq> ''error'' \<Longrightarrow> error_duration (r\<lparr>state := ls\<rparr>) = Empty"
  by (simp_all add: error_duration_def success_result_def error_result_def)

lemma chain_refines_aux:
  assumes "ls \<noteq> ''error''" "c = createRetryCondition cfg" "dl = createRetryDelay cfg"
    "qp = q p"
  shows "map_option (debounce_from error_duration None)
       (expand fuel (retry_project cfg q ls p)
          (catchError (\<lambda>e. of_obs (error_result n e))
             (map_obs (success_result n) xs)))
     = chain_trace c dl ls qp fuel n xs"
  using assms
proof (induction c dl ls qp fuel n xs rule: chain_trace.induct)
  case (2 c dl ls qp fuel n t xs)
  show ?case by (simp add: 2(1)[OF 2(2-5), symmetric] option.map_comp comp_def)
next
  case (5 c dl ls qp fuel n d xs)
  show ?case
    by (simp add: 5(1)[OF 5(2-5), symmetric] option.map_comp comp_def split: option.splits)
next
  case (8 c dl ls qp fuel n e xs)
  show ?case
  proof (cases "c n (Some e)")
    case True
    have IH: "chain_trace (createRetryCondition cfg) (createRetryDelay cfg) ls (q p)
         (Suc fuel) (Suc n) (q p (Suc n)) =
       map_option (debounce_from error_duration None)
        (expand (Suc fuel) (retry_project cfg q ls p) (invoke q p (Suc n)))"
      using 8(1)[OF True 8(2-5)] 8(3-5) by (simp add: invoke_def)
    show ?thesis using 8(2-5) True
      by (simp add: IH of_obs_def option.map_comp comp_def split: option.splits)
  next
    case False
    then show ?thesis using 8(2-5) by (simp add: of_obs_def)
  qed
qed (simp_all add: of_obs_def)

lemma invokeQuery_chain:
  "ls \<noteq> ''error'' \<Longrightarrow>
   invokeQuery cfg q fuel ls p =
     chain_trace (createRetryCondition cfg) (createRetryDelay cfg) ls (q p) fuel 0 (q p 0)"
  using chain_refines_aux [OF _ refl refl refl, where ls = ls and cfg = cfg and fuel = fuel
      and q = q and p = p and n = 0 and xs = "q p 0"]
  by (simp add: invokeQuery_def invoke_def debounce_def fun_eq_iff cong: option.map_cong)

lemma chain_trace_waits:
  "chain_trace c dl ls q fuel n (map Wait ws @ xs) =
     map_option ((@) (map Wait ws)) (chain_trace c dl ls q fuel n xs)"
  by (induction ws) (simp_all add: option.map_comp comp_def option.map_ident)


lemma chain_run:
  assumes "\<forall>i. n \<le> i \<and> i < k \<longrightarrow> q i = map Wait (lat i) @ [Error (err i)] \<and> c i (Some (err i))"
    and "n \<le> k" and "k - n < fuel"
    and "chain_trace c dl ls q (fuel - (k - n)) k (q k) = Some fin"
  shows "chain_trace c dl ls q fuel n (q n) =
     Some (concat (map (\<lambda>i. map Wait (lat i) @
              [Next ((error_result i (err i))\<lparr>state := ls\<rparr>), Wait (dl i)]) [n..<k]) @ fin)"
  using assms
proof (induction "k - n" arbitrary: n fuel)
  case 0
  then show ?case by simp
next
  case (Suc m)
  then have nk: "n < k" by simp
  obtain f' where f': "fuel = Suc (Suc f')" using Suc.prems(3) Suc.hyps(2)
    by (cases fuel; cases "fuel - 1") auto
  have qn: "q n = map Wait (lat n) @ [Error (err n)]" and cn: "c n (Some (err n))"
    using Suc.prems(1) nk by auto
  have IH: "chain_trace c dl ls q (Suc f') (Suc n) (q (Suc n)) =
     Some (concat (map (\<lambda>i. map Wait (lat i) @
              [Next ((error_result i (err i))\<lparr>state := ls\<rparr>), Wait (dl i)]) [Suc n..<k]) @ fin)"
  proof (rule Suc.hyps(1))
    show "m = k - Suc n" using Suc.hyps(2) by simp
    show "\<forall>i. Suc n \<le> i \<and> i < k \<longrightarrow> q i = map Wait (lat i) @ [Error (err i)] \<and> c i (Some (err i))"
      using Suc.prems(1) by auto
    show "Suc n \<le> k" using nk by simp
    show "k - Suc n < Suc f'" using Suc.prems(3) f' by simp
    have "Suc f' - (k - Suc n) = fuel - (k - n)" using f' nk by simp
    then show "chain_trace c dl ls q (Suc f' - (k - Suc n)) k (q k) = Some fin"
      using Suc.prems(4) by simp
  qed
  have "[n..<k] = n # [Suc n..<k]" using nk by (simp add: upt_conv_Cons)
  then show ?case
    by (simp add: qn chain_trace_waits f' cn IH)
qed

lemma chain_last_success:
  "0 < fuel \<Longrightarrow> chain_trace c dl ls q fuel k (map Wait ws @ [Next d, Complete]) =
     Some (map Wait ws @ [Next (success_result k d), Complete])"
  by (cases fuel) (simp_all add: chain_trace_waits)

lemma chain_last_error:
  "0 < fuel \<Longrightarrow> \<not> c k (Some e) \<Longrightarrow> chain_trace c dl ls q fuel k (map Wait ws @ [Error e]) =
     Some (map Wait ws @ [Next (error_result k e), Complete])"
  by (cases fuel; cases "fuel - 1") (simp_all add: chain_trace_waits)

text \<open>
  Claim C1.  Let the attempts \<open>0, \<dots>, k - 1\<close> fail, each after any number of waits, with
  the retry condition holding for each of them, and let the loading state not be
  \<^verbatim>\<open>'error'\<close>.  Then with fuel beyond \<open>k\<close> the chain is, for every retry delay: for each
  failed attempt its waits, the failure relabelled with the loading state and the backoff
  wait; then the waits of attempt \<open>k\<close> and, when attempt \<open>k\<close> succeeds with \<open>d\<close>, the result
  \<^verbatim>\<open>{state: 'success', data: d, retries: k}\<close> (\<^verbatim>\<open>retries\<close> left out when \<open>k = 0\<close>), and when
  attempt \<open>k\<close> fails with \<open>e\<close> and the retry condition is false, the result
  \<^verbatim>\<open>{state: 'error', error: e, retries: k}\<close>; then completion.  The retry condition is
  \<open>n < r\<close> for a numeric \<^verbatim>\<open>retries\<close> \<open>r\<close> and the user's predicate otherwise.
\<close>

theorem invokeQuery_attempt_chain:
  assumes "ls \<noteq> ''error''"
    and "\<forall>i<k. q p i = map Wait (lat i) @ [Error (err i)] \<and>
            createRetryCondition cfg i (Some (err i))"
    and "k < fuel"
  shows
    "(q p k = map Wait (lat k) @ [Next d, Complete] \<longrightarrow>
        invokeQuery cfg q fuel ls p =
          Some (concat (map (\<lambda>i. map Wait (lat i) @
                   [Next \<lparr>state = ls, data = None, error = Some (err i), retries = Some i\<rparr>,
                    Wait (createRetryDelay cfg i)]) [0..<k]) @
                map Wait (lat k) @
                [Next \<lparr>state = ''success'', data = Some d, error = None,
                       retries = (if k = 0 then None else Some k)\<rparr>,
                 Complete])) \<and>
     (q p k = map Wait (lat k) @ [Error e] \<and> \<not> createRetryCondition cfg k (Some e) \<longrightarrow>
        invokeQuery cfg q fuel ls p =
          Some (concat (map (\<lambda>i. map Wait (lat i) @
                   [Next \<lparr>state = ls, data = None, error = Some (err i), retries = Some i\<rparr>,
                    Wait (createRetryDelay cfg i)]) [0..<k]) @
                map Wait (lat k) @
                [Next \<lparr>state = ''error'', data = None, error = Some e, retries = Some k\<rparr>,
                 Complete])) \<and>
     (\<forall>r n x. config_retries cfg = Val (RetriesNumber r) \<longrightarrow>
        createRetryCondition cfg n x = (int n < r)) \<and>
     (\<forall>f. config_retries cfg = Val (RetriesFunction f) \<longrightarrow> createRetryCondition cfg = f)"
proof -
  let ?c = "createRetryCondition cfg" and ?dl = "createRetryDelay cfg"
  have fails: "\<forall>i. 0 \<le> i \<and> i < k \<longrightarrow>
      q p i = map Wait (lat i) @ [Error (err i)] \<and> ?c i (Some (err i))"
    using assms(2) by simp
  have run: "chain_trace ?c ?dl ls (q p) (fuel - (k - 0)) k (q p k) = Some fin \<Longrightarrow>
      invokeQuery cfg q fuel ls p =
        Some (concat (map (\<lambda>i. map Wait (lat i) @
                 [Next ((error_result i (err i))\<lparr>state := ls\<rparr>), Wait (?dl i)]) [0..<k]) @ fin)"
    for fin
    using chain_run [where n = 0 and k = k and q = "q p" and lat = lat and err = err
        and c = ?c and dl = ?dl and ls = ls and fuel = fuel and fin = fin] fails assms(3)
    by (simp add: invokeQuery_chain [OF assms(1)])
  have fuel: "0 < fuel - (k - 0)" using assms(3) by simp
  have relabel: "(error_result i x)\<lparr>state := ls\<rparr> =
      \<lparr>state = ls, data = None, error = Some x, retries = Some i\<rparr>" for i x
    by (simp add: error_result_def)
  have success: "success_result k d = \<lparr>state = ''success'', data = Some d, error = None,
      retries = (if k = 0 then None else Some k)\<rparr>"
    by (simp add: success_result_def)
  show ?thesis
  proof (intro conjI impI allI)
    assume qk: "q p k = map Wait (lat k) @ [Next d, Complete]"
    have "chain_trace ?c ?dl ls (q p) (fuel - (k - 0)) k (q p k) =
        Some (map Wait (lat k) @ [Next (success_result k d), Complete])"
      unfolding qk by (rule chain_last_success [OF fuel])
    from run [OF this]
    show "invokeQuery cfg q fuel ls p =
          Some (concat (map (\<lambda>i. map Wait (lat i) @
                   [Next \<lparr>state = ls, data = None, error = Some (err i), retries = Some i\<rparr>,
                    Wait (createRetryDelay cfg i)]) [0..<k]) @
                map Wait (lat k) @
                [Next \<lparr>state = ''success'', data = Some d, error = None,
                       retries = (if k = 0 then None else Some k)\<rparr>,
                 Complete])"
      unfolding relabel success .
  next
    assume a: "q p k = map Wait (lat k) @ [Error e] \<and> \<not> createRetryCondition cfg k (Some e)"
    have "chain_trace ?c ?dl ls (q p) (fuel - (k - 0)) k (q p k) =
        Some (map Wait (lat k) @ [Next (error_result k e), Complete])"
      using a chain_last_error [OF fuel, of ?c k e ?dl ls "q p" "lat k"] by simp
    from run [OF this]
    show "invokeQuery cfg q fuel ls p =
          Some (concat (map (\<lambda>i. map Wait (lat i) @
                   [Next \<lparr>state = ls, data = None, error = Some (err i), retries = Some i\<rparr>,
                    Wait (createRetryDelay cfg i)]) [0..<k]) @
                map Wait (lat k) @
                [Next \<lparr>state = ''error'', data = None, error = Some e, retries = Some k\<rparr>,
                 Complete])"
      unfolding relabel by (simp add: error_result_def)
  qed (simp_all add: createRetryCondition_def)
qed

text \<open>
  With \<^verbatim>\<open>retries = 2\<close> and \<^verbatim>\<open>retryDelay = () => 0\<close>, a fetch that fails on the attempts 0
  and 1 and succeeds on attempt 2 ends in \<^verbatim>\<open>state = 'success'\<close> with \<^verbatim>\<open>retries = 2\<close>.
\<close>

theorem invokeQuery_attempt_chain_witness:
  "invokeQuery witness_config witness_fetch 3 ''loading'' JNull =
     Some [Next \<lparr>state = ''loading'', data = None, error = Some ''down'', retries = Some 0\<rparr>,
           Wait 0,
           Next \<lparr>state = ''loading'', data = None, error = Some ''down'', retries = Some 1\<rparr>,
           Wait 0,
           Next \<lparr>state = ''success'', data = Some 42, error = None, retries = Some 2\<rparr>,
           Complete]"
proof -
  have cond: "createRetryCondition witness_config i x = (i < 2)" for i x
    by (simp add: createRetryCondition_def witness_config_def)
  have dl: "createRetryDelay witness_config i = 0" for i
    by (simp add: createRetryDelay_def witness_config_def)
  have up: "[0..<2] = [0, Suc 0]" by (simp add: upt_conv_Cons)
  show ?thesis
    using invokeQuery_attempt_chain [of "''loading''" 2 witness_fetch JNull "\<lambda>i. []"
        "\<lambda>i. ''down''" witness_config 3 42 "''none''"]
    by (simp add: cond dl up witness_fetch_def)
qed


lemma spread_default:
  "spread DEFAULT_QUERY_CONFIG (Some c) =
     \<lparr>config_retries = (case config_retries c of Absent \<Rightarrow> Val (RetriesNumber 3) | v \<Rightarrow> v),
      retryDelay =
        (case retryDelay c of Absent \<Rightarrow> Val (DelayFunction (\<lambda>n. (n + 1) * 1000)) | v \<Rightarrow> v),
      refetchOnWindowFocus = (case refetchOnWindowFocus c of Absent \<Rightarrow> Val False | v \<Rightarrow> v),
      refetchInterval = (case refetchInterval c of Absent \<Rightarrow> Undefined | v \<Rightarrow> v),
      staleTime = (case staleTime c of Absent \<Rightarrow> Val 0 | v \<Rightarrow> v),
      cacheTime = (case cacheTime c of Absent \<Rightarrow> Val 300000 | v \<Rightarrow> v)\<rparr>"
  by (simp add: spread_def spread_field_def DEFAULT_QUERY_CONFIG_def split: field.splits)

lemma parseInput_simps:
  "parseInput [Function f, Config c] =
     Some \<lparr>query = f, queryParam = of_obs JNull, queryConfig = spread DEFAULT_QUERY_CONFIG (Some c)\<rparr>"
  "parseInput [Value v, Function f, Config c] =
     Some \<lparr>query = f, queryParam = of_obs v, queryConfig = spread DEFAULT_QUERY_CONFIG (Some c)\<rparr>"
  "parseInput [ObservableInput ob, Function f, Config c] =
     Some \<lparr>query = f, queryParam = ob, queryConfig = spread DEFAULT_QUERY_CONFIG (Some c)\<rparr>"
  "parseInput [Function f] =
     Some \<lparr>query = f, queryParam = of_obs JNull, queryConfig = DEFAULT_QUERY_CONFIG\<rparr>"
  "parseInput [Value v, Function f] =
     Some \<lparr>query = f, queryParam = of_obs v, queryConfig = DEFAULT_QUERY_CONFIG\<rparr>"
  "parseInput [ObservableInput ob, Function f] =
     Some \<lparr>query = f, queryParam = ob, queryConfig = DEFAULT_QUERY_CONFIG\<rparr>"
  by (simp_all add: parseInput_def input_at_def Let_def spread_def)

text \<open>
  Claim C7.  For each of the argument lists that the overloads of \<^verbatim>\<open>query\<close> admit, the
  resolved configuration is the field-wise merge of the caller's configuration over the
  defaults \<^verbatim>\<open>retries = 3\<close>, \<^verbatim>\<open>retryDelay = n \<mapsto> (n + 1) * 1000\<close>,
  \<^verbatim>\<open>refetchOnWindowFocus = false\<close>, \<^verbatim>\<open>refetchInterval\<close> unset, \<^verbatim>\<open>staleTime = 0\<close> and
  \<^verbatim>\<open>cacheTime = 300000\<close>: a field that the caller's object has replaces the default, a
  field that it does not have keeps the default, and without a configuration argument
  the defaults are used as they are.
\<close>

theorem parseInput_merges_config:
  "(let merged =
        \<lparr>config_retries = (case config_retries c of Absent \<Rightarrow> Val (RetriesNumber 3) | v \<Rightarrow> v),
         retryDelay =
           (case retryDelay c of Absent \<Rightarrow> Val (DelayFunction (\<lambda>n. (n + 1) * 1000)) | v \<Rightarrow> v),
         refetchOnWindowFocus = (case refetchOnWindowFocus c of Absent \<Rightarrow> Val False | v \<Rightarrow> v),
         refetchInterval = (case refetchInterval c of Absent \<Rightarrow> Undefined | v \<Rightarrow> v),
         staleTime = (case staleTime c of Absent \<Rightarrow> Val 0 | v \<Rightarrow> v),
         cacheTime = (case cacheTime c of Absent \<Rightarrow> Val 300000 | v \<Rightarrow> v)\<rparr>;
       defaults =
        \<lparr>config_retries = Val (RetriesNumber 3),
         retryDelay = Val (DelayFunction (\<lambda>n. (n + 1) * 1000)),
         refetchOnWindowFocus = Val False, refetchInterval = Undefined,
         staleTime = Val 0, cacheTime = Val 300000\<rparr>
    in map_option queryConfig (parseInput [Function f, Config c]) = Some merged \<and>
       map_option queryConfig (parseInput [Value v, Function f, Config c]) = Some merged \<and>
       map_option queryConfig (parseInput [ObservableInput ob, Function f, Config c]) =
         Some merged \<and>
       map_option queryConfig (parseInput [Function f]) = Some defaults \<and>
       map_option queryConfig (parseInput [Value v, Function f]) = Some defaults \<and>
       map_option queryConfig (parseInput [ObservableInput ob, Function f]) = Some defaults)"
  by (simp add: parseInput_simps spread_default Let_def) (simp add: DEFAULT_QUERY_CONFIG_def)

text \<open>A caller that gives only \<^verbatim>\<open>cacheTime: 5000\<close> gets the other five defaults.\<close>

theorem parseInput_merges_config_witness:
  "map_option queryConfig (parseInput [Function failing_fetch, Config witness_input_config]) =
     Some \<lparr>config_retries = Val (RetriesNumber 3),
           retryDelay = Val (DelayFunction (\<lambda>n. (n + 1) * 1000)),
           refetchOnWindowFocus = Val False, refetchInterval = Undefined,
           staleTime = Val 0, cacheTime = Val 5000\<rparr>"
proof -
  note A = parseInput_merges_config [of witness_input_config failing_fetch JNull "[]",
      unfolded Let_def, THEN conjunct1]
  show ?thesis unfolding A by (simp add: witness_input_config_def)
qed


lemma catchError_waits_error:
  "catchError h (map_obs g (map Wait ws @ Error e # rest)) = map Wait ws @ h e"
  by (induction ws) simp_all

lemma invoke_waits_error:
  "q p n = map Wait ws @ Error e # rest \<Longrightarrow>
   invoke q p n = map Wait ws @ [Next (error_result n e), Complete]"
  by (simp add: invoke_def catchError_waits_error of_obs_def)

lemma expand_waits:
  "expand fuel pr (map Wait ws @ xs) = map_option ((@) (map Wait ws)) (expand fuel pr xs)"
  by (induction ws) (simp_all add: option.map_comp comp_def option.map_ident)

lemma debounce_from_waits:
  "debounce_from sel None (map Wait ws @ xs) = map Wait ws @ debounce_from sel None xs"
  by (induction ws) simp_all

lemma no_retry_chain:
  assumes "\<not> createRetryCondition cfg n (Some e)" and "q p 0 = map Wait ws @ [Error e]"
    and "0 < fuel" and "n = 0"
  shows "invokeQuery cfg q fuel ls p = Some (map Wait ws @ [Next (error_result 0 e), Complete])"
proof -
  obtain f where f: "fuel = Suc f" using assms(3) by (cases fuel) auto
  show ?thesis
    using assms(1,4)
    using invoke_waits_error [where q = q and p = p and n = 0 and ws = ws and e = e
        and rest = "[]"] assms(2)
    by (simp add: invokeQuery_def expand_waits f debounce_def debounce_from_waits)
qed

lemma default_condition [simp]:
  "createRetryCondition DEFAULT_QUERY_CONFIG n e = (n < 3)"
  by (simp add: createRetryCondition_def DEFAULT_QUERY_CONFIG_def)

lemma default_delay [simp]:
  "createRetryDelay DEFAULT_QUERY_CONFIG n = (n + 1) * 1000"
  by (simp add: createRetryDelay_def DEFAULT_QUERY_CONFIG_def)

lemma default_chain:
  assumes "\<forall>n. f p n = [Error e]" and "ls \<noteq> ''error''"
  shows "invokeQuery DEFAULT_QUERY_CONFIG f 4 ls p =
     Some [Next \<lparr>state = ls, data = None, error = Some e, retries = Some 0\<rparr>, Wait 1000,
           Next \<lparr>state = ls, data = None, error = Some e, retries = Some 1\<rparr>, Wait 2000,
           Next \<lparr>state = ls, data = None, error = Some e, retries = Some 2\<rparr>, Wait 3000,
           Next \<lparr>state = ''error'', data = None, error = Some e, retries = Some 3\<rparr>,
           Complete]"
proof -
  have up: "[0..<3] = [0, 1, 2]" by (simp add: upt_conv_Cons)
  have "chain_trace (createRetryCondition DEFAULT_QUERY_CONFIG)
      (createRetryDelay DEFAULT_QUERY_CONFIG) ls (f p) 4 0 (f p 0) =
     Some (concat (map (\<lambda>i. map Wait ((\<lambda>i. []) i) @
              [Next ((error_result i ((\<lambda>i. e) i))\<lparr>state := ls\<rparr>),
               Wait (createRetryDelay DEFAULT_QUERY_CONFIG i)]) [0..<3]) @
           [Next (error_result 3 e), Complete])"
    using chain_run [where k = 3 and n = 0 and fuel = 4 and lat = "\<lambda>i. []"
          and err = "\<lambda>i. e" and q = "f p" and ls = ls
          and c = "createRetryCondition DEFAULT_QUERY_CONFIG"
          and dl = "createRetryDelay DEFAULT_QUERY_CONFIG"
          and fin = "[Next (error_result 3 e), Complete]"]
    by (simp add: assms(1))
  then show ?thesis
    by (simp add: invokeQuery_chain [OF assms(2)] up error_result_def)
qed

text \<open>
  Claim C10.  A configuration whose \<^verbatim>\<open>retries\<close> is explicitly \<^verbatim>\<open>undefined\<close> overrides the
  default with \<^verbatim>\<open>undefined\<close>: the retry condition of the resolved configuration is
  constantly false, and a fetch that fails on its first attempt ends the chain at once
  with \<^verbatim>\<open>{state: 'error', retries: 0}\<close>, whatever later attempts would have done.  Without a
  configuration the same call retries three times, after 1000, 2000 and 3000
  milliseconds, and ends with \<^verbatim>\<open>retries: 3\<close>.
\<close>

theorem undefined_retries_no_retry:
  assumes "config_retries c = Undefined"
  shows "\<exists>r r0. parseInput [Function f, Config c] = Some r \<and>
      config_retries (queryConfig r) = Undefined \<and>
      (\<forall>n e. \<not> createRetryCondition (queryConfig r) n e) \<and>
      (\<forall>ws e fuel ls p. f p 0 = map Wait ws @ [Error e] \<and> 0 < fuel \<longrightarrow>
         invokeQuery (queryConfig r) (query r) fuel ls p =
           Some (map Wait ws @
             [Next \<lparr>state = ''error'', data = None, error = Some e, retries = Some 0\<rparr>,
              Complete])) \<and>
      parseInput [Function f] = Some r0 \<and>
      (\<forall>e ls p. (\<forall>n. f p n = [Error e]) \<and> ls \<noteq> ''error'' \<longrightarrow>
         invokeQuery (queryConfig r0) (query r0) 4 ls p =
           Some [Next \<lparr>state = ls, data = None, error = Some e, retries = Some 0\<rparr>, Wait 1000,
                 Next \<lparr>state = ls, data = None, error = Some e, retries = Some 1\<rparr>, Wait 2000,
                 Next \<lparr>state = ls, data = None, error = Some e, retries = Some 2\<rparr>, Wait 3000,
                 Next \<lparr>state = ''error'', data = None, error = Some e, retries = Some 3\<rparr>,
                 Complete])"
proof -
  let ?cfg = "spread DEFAULT_QUERY_CONFIG (Some c)"
  have r: "config_retries ?cfg = Undefined"
    using assms by (simp add: spread_default)
  then have cond: "\<not> createRetryCondition ?cfg n e" for n e
    by (simp add: createRetryCondition_def)
  show ?thesis
    unfolding parseInput_simps
    using r cond no_retry_chain [OF cond _ _ refl, of f] default_chain [of f]
    by (auto simp: error_result_def)
qed

text \<open>The call with \<^verbatim>\<open>{retries: undefined}\<close> and a fetch that always fails.\<close>

theorem undefined_retries_no_retry_witness:
  "\<exists>r. parseInput ([Function failing_fetch, Config retries_undefined_config]
           :: (nat, string, unit) input list) = Some r \<and>
     invokeQuery (queryConfig r) (query r) 1 ''loading'' JNull =
       Some [Next \<lparr>state = ''error'', data = None, error = Some ''down'', retries = Some 0\<rparr>,
             Complete]"
proof -
  have u: "config_retries retries_undefined_config = Undefined"
    by (simp add: retries_undefined_config_def)
  have f: "failing_fetch JNull 0 = map Wait [] @ [Error ''down'']"
    by (simp add: failing_fetch_def)
  from undefined_retries_no_retry [OF u, of failing_fetch]
  obtain r where r: "parseInput ([Function failing_fetch, Config retries_undefined_config]
           :: (nat, string, unit) input list) = Some r"
    and chain: "\<forall>ws e fuel ls p. failing_fetch p 0 = map Wait ws @ [Error e] \<and> 0 < fuel \<longrightarrow>
         invokeQuery (queryConfig r) (query r) fuel ls p =
           Some (map Wait ws @
             [Next \<lparr>state = ''error'', data = None, error = Some e, retries = Some 0\<rparr>,
              Complete])"
    by blast
  from chain [rule_format, of JNull "[]" "''down''" 1 "''loading''"] f
  have "invokeQuery (queryConfig r) (query r) 1 ''loading'' JNull =
       Some [Next \<lparr>state = ''error'', data = None, error = Some ''down'', retries = Some 0\<rparr>,
             Complete]"
    by simp
  with r show ?thesis by blast
qed











lemma chain_total:
  "c = (\<lambda>n e. int n < r) \<Longrightarrow> nat (r - int n) < fuel \<Longrightarrow>
   chain_trace c dl ls q fuel n xs \<noteq> None"
  by (induction c dl ls q fuel n xs rule: chain_trace.induct) auto

lemma invokeQuery_total:
  assumes "config_retries cfg = Val (RetriesNumber r)" and "ls \<noteq> ''error''"
  shows "invokeQuery cfg q (Suc (nat r)) ls p \<noteq> None"
proof -
  have "createRetryCondition cfg = (\<lambda>n e. int n < r)"
    using assms(1) by (simp add: createRetryCondition_def)
  then show ?thesis
    using chain_total [of "createRetryCondition cfg" r 0 "Suc (nat r)"]
    by (simp add: invokeQuery_chain [OF assms(2)])
qed








































lemma or0_results [simp]:
  "or0 (retries (success_result n d)) = n"
  "or0 (retries (error_result n e)) = n"
  by (simp_all add: or0_def success_result_def error_result_def)

lemma chain_sorted:
  "chain_trace c dl ls q fuel n xs = Some tr \<Longrightarrow>
   sorted (map (\<lambda>v. or0 (retries v)) (values_of tr)) \<and>
   (\<forall>v \<in> set (values_of tr). n \<le> or0 (retries v))"
proof (induction c dl ls q fuel n xs arbitrary: tr rule: chain_trace.induct)
  case (1 c dl ls q fuel n)
  then show ?case by simp
next
  case (2 c dl ls q fuel n t xs)
  then obtain r where r: "chain_trace c dl ls q fuel n xs = Some r" and tr: "tr = Wait t # r"
    by auto
  from 2(1) [OF r] show ?case by (simp add: tr)
next
  case (3 c dl ls q fuel n xs)
  then show ?case by auto
next
  case (4 c dl ls q n d xs)
  then show ?case by simp
next
  case (5 c dl ls q fuel n d xs)
  then obtain r where r: "chain_trace c dl ls q (Suc fuel) n xs = Some r"
    and tr: "tr = Next (success_result n d) # r"
    by auto
  from 5(1) [OF r] show ?case by (simp add: tr)
next
  case (6 c dl ls q n e xs)
  then show ?case by simp
next
  case (7 c dl ls q n e xs)
  then show ?case by (auto split: if_splits)
next
  case (8 c dl ls q fuel n e xs)
  show ?case
  proof (cases "c n (Some e)")
    case True
    then obtain r where r: "chain_trace c dl ls q (Suc fuel) (Suc n) (q (Suc n)) = Some r"
      and tr: "tr = Next ((error_result n e)\<lparr>state := ls\<rparr>) # Wait (dl n) # r"
      using 8(2) by auto
    from 8(1) [OF True r] have "sorted (map (\<lambda>v. or0 (retries v)) (values_of r))"
      and "\<forall>v\<in>set (values_of r). Suc n \<le> or0 (retries v)" by simp_all
    then show ?thesis
      by (auto simp: tr dest: Suc_leD)
  next
    case False
    then show ?thesis using 8(2) by auto
  qed
qed

text \<open>
  Claim C6.  In the sequence of results that one attempt chain emits, \<^verbatim>\<open>retries\<close> (\<open>0\<close> when
  the field is absent) never decreases; with a numeric \<^verbatim>\<open>retries\<close> the chain has an end.
\<close>

theorem retries_monotone:
  assumes "ls \<noteq> ''error''"
  shows "(\<forall>tr. invokeQuery cfg q fuel ls p = Some tr \<longrightarrow>
            sorted (map (\<lambda>v. or0 (retries v)) (values_of tr))) \<and>
         (\<forall>r. config_retries cfg = Val (RetriesNumber r) \<longrightarrow>
            invokeQuery cfg q (Suc (nat r)) ls p \<noteq> None)"
proof (intro conjI allI impI)
  show "sorted (map (\<lambda>v. or0 (retries v)) (values_of tr))"
    if "invokeQuery cfg q fuel ls p = Some tr" for tr
    using that chain_sorted [of "createRetryCondition cfg" "createRetryDelay cfg" ls "q p" fuel 0
        "q p 0" tr]
    by (simp add: invokeQuery_chain [OF assms])
  show "invokeQuery cfg q (Suc (nat r)) ls p \<noteq> None"
    if "config_retries cfg = Val (RetriesNumber r)" for r
    using that assms by (rule invokeQuery_total)
qed

lemma retried_simps [simp]:
  "\<not> retried cfg (success_result n d)"
  "retried cfg (error_result n e) = createRetryCondition cfg n (Some e)"
  "ls \<noteq> ''error'' \<Longrightarrow> \<not> retried cfg (r\<lparr>state := ls\<rparr>)"
  by (simp_all add: retried_def success_result_def error_result_def or0_def)

lemma relabelled_afterD:
  "relabelled_after cfg ls raw \<Longrightarrow> raw = pre @ Next v # post \<Longrightarrow> retried cfg v \<Longrightarrow>
   \<exists>post'. post = Next (v\<lparr>state := ls\<rparr>) #
     Wait (createRetryDelay cfg (or0 (retries v))) # post'"
proof (induction pre arbitrary: raw)
  case Nil
  then show ?case by (auto split: list.splits event.splits)
next
  case (Cons x pre)
  then show ?case by (cases x) auto
qed

lemma raw_chain:
  assumes "ls \<noteq> ''error''" "c = createRetryCondition cfg" "dl = createRetryDelay cfg"
    "qp = q p"
    "expand fuel (retry_project cfg q ls p)
       (catchError (\<lambda>e. of_obs (error_result n e)) (map_obs (success_result n) xs)) = Some raw"
  shows "debounce_from error_duration None raw = filter (keep cfg) raw \<and>
     relabelled_after cfg ls raw"
  using assms
proof (induction c dl ls qp fuel n xs arbitrary: raw rule: chain_trace.induct)
  case (2 c dl ls qp fuel n t xs)
  from 2(6) obtain r where r: "expand fuel (retry_project cfg q ls p)
       (catchError (\<lambda>e. of_obs (error_result n e)) (map_obs (success_result n) xs)) = Some r"
    and raw: "raw = Wait t # r" by auto
  from 2(1) [OF 2(2-5) r] show ?case by (simp add: raw keep_def)
next
  case (5 c dl ls qp fuel n d xs)
  from 5(6) obtain r where r: "expand (Suc fuel) (retry_project cfg q ls p)
       (catchError (\<lambda>e. of_obs (error_result n e)) (map_obs (success_result n) xs)) = Some r"
    and raw: "raw = Next (success_result n d) # r" by (auto split: option.splits)
  from 5(1) [OF 5(2-5) r] show ?case by (simp add: raw keep_def)
next
  case (8 c dl ls qp fuel n e xs)
  show ?case
  proof (cases "c n (Some e)")
    case True
    from 8(6) True 8(2-5) obtain r where
      r: "expand (Suc fuel) (retry_project cfg q ls p)
         (catchError (\<lambda>e. of_obs (error_result (Suc n) e))
            (map_obs (success_result (Suc n)) (qp (Suc n)))) = Some r"
      and raw: "raw = Next (error_result n e) # Next ((error_result n e)\<lparr>state := ls\<rparr>) #
         Wait (dl n) # r"
      by (auto simp: of_obs_def invoke_def split: option.splits)
    from 8(1) [OF True 8(2-5) r] 8(2-5) True show ?thesis
      by (simp add: raw keep_def)
  next
    case False
    with 8(2-6) show ?thesis by (auto simp: of_obs_def keep_def)
  qed
next
  case (7 c dl ls qp n e xs)
  then show ?case by (auto simp: of_obs_def keep_def split: if_splits option.splits)
qed (auto simp: of_obs_def keep_def)

text \<open>
  Claim C4.  Let \<open>raw\<close> be what \<^verbatim>\<open>expand\<close> delivers to \<^verbatim>\<open>debounce\<close>.  Every failure that
  is retried is followed in \<open>raw\<close>, in the same tick, by its copy under the loading state
  and then by the backoff wait; what the subscriber of \<^verbatim>\<open>invokeQuery\<close> is delivered is
  \<open>raw\<close> without the retried failures, so of each such pair only the relabelled copy is
  emitted; and a result with state \<^verbatim>\<open>'error'\<close> that the subscriber does see is one for
  which the retry condition is false, the one that ends the chain.
\<close>

theorem retried_errors_coalesced:
  assumes "ls \<noteq> ''error''"
    and "expand fuel (retry_project cfg q ls p) (invoke q p 0) = Some raw"
  shows "invokeQuery cfg q fuel ls p =
       Some (filter (\<lambda>x. case x of Next v \<Rightarrow> \<not> retried cfg v | _ \<Rightarrow> True) raw) \<and>
     (\<forall>pre v post. raw = pre @ Next v # post \<and> retried cfg v \<longrightarrow>
        (\<exists>post'. post = Next (v\<lparr>state := ls\<rparr>) #
           Wait (createRetryDelay cfg (or0 (retries v))) # post')) \<and>
     (\<forall>tr v. invokeQuery cfg q fuel ls p = Some tr \<and> Next v \<in> set tr \<and> state v = ''error'' \<longrightarrow>
        \<not> createRetryCondition cfg (or0 (retries v)) (error v))"
proof -
  have raw: "debounce_from error_duration None raw = filter (keep cfg) raw"
    and after: "relabelled_after cfg ls raw"
    using raw_chain [OF assms(1) refl refl refl, where cfg = cfg and fuel = fuel and q = q
        and p = p and n = 0 and xs = "q p 0" and raw = raw] assms(2)
    by (simp_all add: invoke_def)
  have k: "keep cfg = (\<lambda>x. case x of Next v \<Rightarrow> \<not> retried cfg v | _ \<Rightarrow> True)"
    by (simp add: fun_eq_iff keep_def)
  have 1: "invokeQuery cfg q fuel ls p = Some (filter (keep cfg) raw)"
    using assms(2) raw by (simp add: invokeQuery_def debounce_def)
  show ?thesis
  proof (intro conjI allI impI)
    show "invokeQuery cfg q fuel ls p =
       Some (filter (\<lambda>x. case x of Next v \<Rightarrow> \<not> retried cfg v | _ \<Rightarrow> True) raw)"
      using 1 unfolding k .
    show "\<exists>post'. post = Next (v\<lparr>state := ls\<rparr>) #
           Wait (createRetryDelay cfg (or0 (retries v))) # post'"
      if "raw = pre @ Next v # post \<and> retried cfg v" for pre v post
      using relabelled_afterD [OF after, of pre v post] that by simp
    show "\<not> createRetryCondition cfg (or0 (retries v)) (error v)"
      if "invokeQuery cfg q fuel ls p = Some tr \<and> Next v \<in> set tr \<and> state v = ''error''"
      for tr v
      using that 1 by (auto simp: keep_def retried_def)
  qed
qed

text \<open>The chain of the instance ends and its \<^verbatim>\<open>retries\<close> are sorted.\<close>

theorem retries_monotone_witness:
  "\<exists>tr. invokeQuery witness_config witness_fetch 3 ''loading'' JNull = Some tr \<and>
     sorted (map (\<lambda>v. or0 (retries v)) (values_of tr))"
proof -
  have ls: "''loading'' \<noteq> ''error''" by simp
  note T = retries_monotone [OF ls, of witness_config witness_fetch 3 JNull]
  have r: "config_retries witness_config = Val (RetriesNumber 2)"
    by (simp add: witness_config_def)
  from T r have "invokeQuery witness_config witness_fetch (Suc (nat 2)) ''loading'' JNull \<noteq> None"
    by blast
  then obtain tr where tr: "invokeQuery witness_config witness_fetch 3 ''loading'' JNull = Some tr"
    by (auto simp: eval_nat_numeral)
  with T show ?thesis by blast
qed

text \<open>
  The instance: two failures, each delivered with its relabelled copy in one tick, of
  which the subscriber sees the copies only.
\<close>

theorem retried_errors_coalesced_witness:
  "expand 3 (retry_project witness_config witness_fetch ''loading'' JNull)
     (invoke witness_fetch JNull 0) =
     Some [Next \<lparr>state = ''error'', data = None, error = Some ''down'', retries = Some 0\<rparr>,
           Next \<lparr>state = ''loading'', data = None, error = Some ''down'', retries = Some 0\<rparr>,
           Wait 0,
           Next \<lparr>state = ''error'', data = None, error = Some ''down'', retries = Some 1\<rparr>,
           Next \<lparr>state = ''loading'', data = None, error = Some ''down'', retries = Some 1\<rparr>,
           Wait 0,
           Next \<lparr>state = ''success'', data = Some 42, error = None, retries = Some 2\<rparr>,
           Complete] \<and>
   invokeQuery witness_config witness_fetch 3 ''loading'' JNull =
     Some [Next \<lparr>state = ''loading'', data = None, error = Some ''down'', retries = Some 0\<rparr>,
           Wait 0,
           Next \<lparr>state = ''loading'', data = None, error = Some ''down'', retries = Some 1\<rparr>,
           Wait 0,
           Next \<lparr>state = ''success'', data = Some 42, error = None, retries = Some 2\<rparr>,
           Complete]"
proof -
  have ls: "''loading'' \<noteq> ''error''" by simp
  have cond: "createRetryCondition witness_config i x = (i < 2)" for i x
    by (simp add: createRetryCondition_def witness_config_def)
  have dl: "createRetryDelay witness_config i = 0" for i
    by (simp add: createRetryDelay_def witness_config_def)
  have raw: "expand 3 (retry_project witness_config witness_fetch ''loading'' JNull)
     (invoke witness_fetch JNull 0) =
     Some [Next \<lparr>state = ''error'', data = None, error = Some ''down'', retries = Some 0\<rparr>,
           Next \<lparr>state = ''loading'', data = None, error = Some ''down'', retries = Some 0\<rparr>,
           Wait 0,
           Next \<lparr>state = ''error'', data = None, error = Some ''down'', retries = Some 1\<rparr>,
           Next \<lparr>state = ''loading'', data = None, error = Some ''down'', retries = Some 1\<rparr>,
           Wait 0,
           Next \<lparr>state = ''success'', data = Some 42, error = None, retries = Some 2\<rparr>,
           Complete]"
    by (simp add: eval_nat_numeral invoke_def witness_fetch_def of_obs_def retry_project_def
        error_result_def success_result_def or0_def cond dl startWith_def timer_switchMap_def
        EMPTY_def)
  from retried_errors_coalesced [OF ls raw] show ?thesis
    by (simp add: raw retried_def or0_def cond)
qed

lemma trigger_from:
  "concatMap
     (\<lambda>(previous, params').
        (if previous \<noteq> JUndefined
         then [Revalidator (queryKeyAndParamsToCacheKey k previous) ''query-unsubscribe''
                 (ParamsValue previous) cfg]
         else []) @
        [Revalidator (queryKeyAndParamsToCacheKey k params') ''query-subscribe''
           (ParamsValue params') cfg])
     (pairwise_from (Some prev)
        (distinctUntilChanged_from (\<lambda>a b. JSON_stringify a = JSON_stringify b) (Some prev) xs))
   = trigger_events cfg k prev xs"
  by (induction cfg k prev xs rule: trigger_events.induct) simp_all

lemma paramsTrigger_trigger_events:
  "paramsTrigger cfg qp k = trigger_events cfg k JUndefined qp"
  by (simp add: paramsTrigger_def startWith_def distinctUntilChanged_def pairwise_def
      trigger_from)

text \<open>
  Claim C2, as amended.  The parameter trigger compares each parameter value with the
  value it let through last (\<^verbatim>\<open>undefined\<close> at the start) by the equality of their
  \<^verbatim>\<open>JSON.stringify\<close> outputs.  A value with the same serialization emits nothing; a value
  with another serialization emits one \<^verbatim>\<open>query-unsubscribe\<close> for the cache key of the
  previous value, unless that value is \<^verbatim>\<open>undefined\<close>, and right after it one
  \<^verbatim>\<open>query-subscribe\<close> for the new cache key.  This is \<open>trigger_events\<close>.
\<close>

theorem paramsTrigger_events:
  "paramsTrigger cfg qp k = trigger_events cfg k JUndefined qp"
  by (rule paramsTrigger_trigger_events)

lemma stringify_values:
  "JSON_stringify params_a1 =
     Some [CHR ''{'', CHR 0x22, CHR ''a'', CHR 0x22, CHR '':'', CHR ''1'', CHR ''}'']"
  "JSON_stringify params_a2 =
     Some [CHR ''{'', CHR 0x22, CHR ''a'', CHR 0x22, CHR '':'', CHR ''2'', CHR ''}'']"
  "JSON_stringify params_ab =
     Some [CHR ''{'', CHR 0x22, CHR ''a'', CHR 0x22, CHR '':'', CHR ''1'', CHR '','',
           CHR 0x22, CHR ''b'', CHR 0x22, CHR '':'', CHR ''2'', CHR ''}'']"
  "JSON_stringify params_ba =
     Some [CHR ''{'', CHR 0x22, CHR ''b'', CHR 0x22, CHR '':'', CHR ''2'', CHR '','',
           CHR 0x22, CHR ''a'', CHR 0x22, CHR '':'', CHR ''1'', CHR ''}'']"
  "JSON_stringify params_a_undefined = Some ''{}''"
  "JSON_stringify params_empty = Some ''{}''"
  "JSON_stringify (JNumber 1) = Some ''1''"
  "JSON_stringify (JNumber 2) = Some ''2''"
  by code_simp+

lemma cache_keys:
  "queryKeyAndParamsToCacheKey ''k'' params_a1 =
     [CHR ''k'', CHR ''-'', CHR ''{'', CHR 0x22, CHR ''a'', CHR 0x22, CHR '':'', CHR ''1'',
      CHR ''}'']"
  "queryKeyAndParamsToCacheKey ''k'' params_a2 =
     [CHR ''k'', CHR ''-'', CHR ''{'', CHR 0x22, CHR ''a'', CHR 0x22, CHR '':'', CHR ''2'',
      CHR ''}'']"
  "queryKeyAndParamsToCacheKey ''k'' (JNumber 1) = ''k-1''"
  "queryKeyAndParamsToCacheKey ''k'' (JNumber 2) = ''k-2''"
  by code_simp+

text \<open>
  From \<^verbatim>\<open>{a:1}\<close> to an equal \<^verbatim>\<open>{a:1}\<close> nothing is emitted; the change to \<^verbatim>\<open>{a:2}\<close> emits one
  pair, the unsubscribe first.
\<close>

theorem paramsTrigger_events_witness:
  "map (\<lambda>r. (trigger r, key r))
     (values_of (paramsTrigger witness_config
        ([Next params_a1, Next params_a1, Wait 5, Next params_a2] :: (jv, unit) obs) ''k'')) =
   [(''query-subscribe'',
      [CHR ''k'', CHR ''-'', CHR ''{'', CHR 0x22, CHR ''a'', CHR 0x22, CHR '':'', CHR ''1'',
       CHR ''}'']),
    (''query-unsubscribe'',
      [CHR ''k'', CHR ''-'', CHR ''{'', CHR 0x22, CHR ''a'', CHR 0x22, CHR '':'', CHR ''1'',
       CHR ''}'']),
    (''query-subscribe'',
      [CHR ''k'', CHR ''-'', CHR ''{'', CHR 0x22, CHR ''a'', CHR 0x22, CHR '':'', CHR ''2'',
       CHR ''}''])]"
proof -
  have u: "params_a1 \<noteq> JUndefined" by (simp add: params_a1_def)
  show ?thesis
    unfolding paramsTrigger_events
    by (simp add: stringify_values cache_keys u)
qed

text \<open>
  Claim C2 as stated fails.  A first value \<^verbatim>\<open>undefined\<close> emits no subscribe.  The change
  from \<^verbatim>\<open>{a: undefined}\<close> to \<^verbatim>\<open>{}\<close>, two different values with one serialization, emits
  nothing.  The deeply equal \<^verbatim>\<open>{a:1, b:2}\<close> and \<^verbatim>\<open>{b:2, a:1}\<close> emit a pair.  The change
  from \<^verbatim>\<open>undefined\<close> to \<^verbatim>\<open>2\<close> emits a subscribe without an unsubscribe.
\<close>

theorem paramsTrigger_not_deep_equality:
  "paramsTrigger witness_config (of_obs JUndefined :: (jv, unit) obs) ''k'' = [Complete] \<and>
   params_a_undefined \<noteq> params_empty \<and>
   map trigger (values_of (paramsTrigger witness_config
       ([Next params_a_undefined, Next params_empty] :: (jv, unit) obs) ''k'')) =
     [''query-subscribe''] \<and>
   deep_equal params_ab params_ba \<and>
   map trigger (values_of (paramsTrigger witness_config
       ([Next params_ab, Next params_ba] :: (jv, unit) obs) ''k'')) =
     [''query-subscribe'', ''query-unsubscribe'', ''query-subscribe''] \<and>
   map trigger (values_of (paramsTrigger witness_config
       ([Next (JNumber 1), Next JUndefined, Next (JNumber 2)] :: (jv, unit) obs) ''k'')) =
     [''query-subscribe'', ''query-unsubscribe'', ''query-subscribe'', ''query-subscribe'']"
proof -
  have d: "deep_equal params_ab params_ba" by code_simp
  have n: "params_a_undefined \<noteq> params_empty" "params_ab \<noteq> JUndefined"
    "params_a_undefined \<noteq> JUndefined"
    by (simp_all add: params_a_undefined_def params_empty_def params_ab_def)
  show ?thesis
    unfolding paramsTrigger_trigger_events
    by (simp add: stringify_values d n of_obs_def)
qed

lemma stringify_None [simp]: "JSON_stringify p = None \<longleftrightarrow> p = JUndefined"
  by (cases p) simp_all






lemma trigger_events_undefined:
  "\<forall>v \<in> set (values_of xs). v = JUndefined \<Longrightarrow>
   values_of (trigger_events cfg k JUndefined xs) = []"
  by (induction xs rule: values_of.induct) simp_all

lemma withLatestFrom_no_params:
  "params_arrivals arrivals = [] \<Longrightarrow> withLatestFrom_from None arrivals = []"
  by (induction arrivals rule: params_arrivals.induct) simp_all

text \<open>
  Claim C9, as amended.  When every value of the parameter stream is \<^verbatim>\<open>undefined\<close>, as
  for the static \<^verbatim>\<open>undefined\<close> of \<^verbatim>\<open>query(key, undefined, fetchFn)\<close>, the parameter
  trigger emits no event at all, and the stream that \<^verbatim>\<open>query\<close> returns emits no result,
  whatever the cache holds.
\<close>

theorem undefined_params_never_subscribe:
  assumes "\<forall>v \<in> set (values_of qp). v = JUndefined"
  shows "values_of (paramsTrigger cfg qp k) = [] \<and>
     (\<forall>arrivals. params_arrivals arrivals = values_of (paramsTrigger cfg qp k) \<longrightarrow>
        query_results arrivals = []) \<and>
     map_option queryParam (parseInput [Value JUndefined, Function f]) =
       Some (of_obs JUndefined)"
proof -
  have 1: "values_of (paramsTrigger cfg qp k) = []"
    using assms by (simp add: paramsTrigger_trigger_events trigger_events_undefined)
  show ?thesis
    by (simp add: 1 query_results_def withLatestFrom_no_params List.map_filter_simps
        parseInput_simps)
qed

text \<open>The static \<^verbatim>\<open>undefined\<close>, with a cache that has a result under every key.\<close>

theorem undefined_params_never_subscribe_witness:
  "values_of (paramsTrigger witness_config (of_obs JUndefined :: (jv, unit) obs) ''k'') = [] \<and>
   query_results ([FromCache full_cache, FromCache full_cache]
     :: (string \<Rightarrow> nat option, string Revalidator) arrival list) = []"
proof -
  have u: "\<forall>v \<in> set (values_of (of_obs JUndefined :: (jv, unit) obs)). v = JUndefined"
    by (simp add: of_obs_def)
  note T = undefined_params_never_subscribe [OF u, of witness_config "''k''" failing_fetch]
  from T have 1: "values_of (paramsTrigger witness_config (of_obs JUndefined :: (jv, unit) obs)
      ''k'') = []"
    by blast
  from T have "\<forall>arrivals :: (string \<Rightarrow> nat option, string Revalidator) arrival list.
      params_arrivals arrivals =
        values_of (paramsTrigger witness_config (of_obs JUndefined :: (jv, unit) obs) ''k'') \<longrightarrow>
      query_results arrivals = []"
    by blast
  from this [rule_format, of "[FromCache full_cache, FromCache full_cache]"] 1
  have "query_results ([FromCache full_cache, FromCache full_cache]
     :: (string \<Rightarrow> nat option, string Revalidator) arrival list) = []"
    by simp
  with 1 show ?thesis by simp
qed

text \<open>
  Claim C9 as stated fails: a stream whose first value is \<^verbatim>\<open>undefined\<close> and whose second
  value is \<^verbatim>\<open>1\<close> emits a \<^verbatim>\<open>query-subscribe\<close> for the second value, and the returned
  stream then emits the cached result.
\<close>

theorem undefined_first_then_value_subscribes:
  "values_of ([Next JUndefined, Next (JNumber 1)] :: (jv, unit) obs) = [JUndefined, JNumber 1] \<and>
   map (\<lambda>r. (trigger r, key r))
     (values_of (paramsTrigger witness_config
        ([Next JUndefined, Next (JNumber 1)] :: (jv, unit) obs) ''k'')) =
     [(''query-subscribe'', ''k-1'')] \<and>
   query_results
     (map FromParams
        (values_of (paramsTrigger witness_config
           ([Next JUndefined, Next (JNumber 1)] :: (jv, unit) obs) ''k'')) @
      [FromCache full_cache]) = [7]"
  unfolding paramsTrigger_trigger_events
  by (simp add: stringify_values cache_keys query_results_def List.map_filter_simps
      full_cache_def)

lemma number_strings:
  "number_to_string 1 = ''1''" "number_to_string 2 = ''2''"
  by code_simp+

lemma static_params_trigger:
  "v \<noteq> JUndefined \<Longrightarrow>
   paramsTrigger cfg (of_obs v) k =
     [Next (Revalidator (queryKeyAndParamsToCacheKey k v) ''query-subscribe'' (ParamsValue v) cfg),
      Complete]"
  by (simp add: paramsTrigger_trigger_events of_obs_def eq_commute [of None])

text \<open>
  Claim C8, as amended.  For a static parameter other than \<^verbatim>\<open>undefined\<close> (\<^verbatim>\<open>null\<close> when the
  call has no parameter), the last listener that detaches pushes exactly one
  \<^verbatim>\<open>query-unsubscribe\<close> with the resolved cache key and the configuration onto
  \<^verbatim>\<open>revalidate\<close>, before control returns to the event loop, and closes the trigger
  subscription.
\<close>

theorem last_listener_unsubscribes:
  assumes "v \<noteq> JUndefined" and "listeners st = 1" and "triggersSubscriptions st = 1"
  shows "unsubscribe_query cfg (of_obs v) k st =
     st\<lparr>listeners := 0, triggersSubscriptions := 0,
        revalidate := revalidate st @
          [Revalidator (queryKeyAndParamsToCacheKey k v) ''query-unsubscribe''
             (ParamsRevalidator
                (Revalidator (queryKeyAndParamsToCacheKey k v) ''query-subscribe''
                   (ParamsValue v) cfg))
             cfg]\<rparr>"
  using assms
  by (simp add: unsubscribe_query_def finalize_events_def static_params_trigger)

text \<open>The static parameter \<^verbatim>\<open>1\<close> under the key \<^verbatim>\<open>k\<close>.\<close>

theorem last_listener_unsubscribes_witness:
  "unsubscribe_query witness_config (of_obs (JNumber 1) :: (jv, unit) obs) ''k'' one_listener =
     \<lparr>listeners = 0, triggersSubscriptions = 0,
      revalidate =
        [Revalidator ''k-1'' ''query-unsubscribe''
           (ParamsRevalidator
              (Revalidator ''k-1'' ''query-subscribe'' (ParamsValue (JNumber 1)) witness_config))
           witness_config]\<rparr>"
proof -
  have a: "JNumber 1 \<noteq> JUndefined" "listeners one_listener = 1"
    "triggersSubscriptions one_listener = 1"
    by (simp_all add: one_listener_def subscribe_query_def)
  show ?thesis
    unfolding last_listener_unsubscribes [OF a]
    by (simp add: one_listener_def subscribe_query_def cache_keys)
qed

text \<open>
  Claim C8 as stated fails.  With the static parameter \<^verbatim>\<open>undefined\<close> nothing is pushed.
  With a cold parameter stream that delivers \<^verbatim>\<open>1\<close> and then \<^verbatim>\<open>2\<close> the trigger has
  subscribed to \<^verbatim>\<open>k-2\<close> last, and the event that is pushed carries \<^verbatim>\<open>k-1\<close>, the key of the
  first event of a new subscription.
\<close>

theorem unsubscribe_key_not_current:
  "revalidate (unsubscribe_query witness_config (of_obs JUndefined :: (jv, unit) obs) ''k''
     one_listener) = [] \<and>
   map (\<lambda>r. (trigger r, key r))
     (values_of (paramsTrigger witness_config
        ([Next (JNumber 1), Next (JNumber 2), Complete] :: (jv, unit) obs) ''k'')) =
     [(''query-subscribe'', ''k-1''), (''query-unsubscribe'', ''k-1''),
      (''query-subscribe'', ''k-2'')] \<and>
   map (\<lambda>r. (trigger r, key r))
     (revalidate (unsubscribe_query witness_config
        ([Next (JNumber 1), Next (JNumber 2), Complete] :: (jv, unit) obs) ''k'' one_listener)) =
     [(''query-unsubscribe'', ''k-1'')]"
  unfolding unsubscribe_query_def finalize_events_def paramsTrigger_trigger_events
  by (simp add: one_listener_def subscribe_query_def number_strings cache_keys of_obs_def)

end
